theory Spec2Isabelle
  imports Main "HOL-Library.Word"
begin

unbundle bit_operations_syntax

section \<open>Data model of motorBldc.c\<close>

type_synonym u8 = "8 word"
type_synonym u16 = "16 word"
type_synonym u32 = "32 word"

text \<open>
  The enumerations of motorBldc.h and mpwm.h (the headers are not part of the sources):
  only the enumerators that motorBldc.c names are used, as constructors of datatypes.
  \<open>BLDC_motor.state\<close> is a \<open>uint8_t\<close> that the code only ever assigns and compares
  against these four enumerators.
\<close>

datatype motor_state = BLDC_STOPPED | BLDC_STARTING | BLDC_RUNNING | BLDC_LOCKED

datatype motor_direction = BLDC_POS | BLDC_NEG

datatype motor_sensor = BLDC_SENSORLESS | BLDC_HALL

datatype mpwm_phase = MPWM_PH_A | MPWM_PH_B | MPWM_PH_C

datatype mpwm_mode = MPWM_DORMANT | MPWM_HI_STATE

datatype adc_channel = ADC_PH_A | ADC_PH_B | ADC_PH_C | ADC_V_BUS

text \<open>
  One call of the PWM driver, \<open>MPWM_setPhaseDutyCycle(phase, mode, duty)\<close>. The driver
  is outside motorBldc.c; the model records the calls in the order the code makes them.
\<close>

datatype mpwm_call = MPWM_setPhaseDutyCycle mpwm_phase mpwm_mode u16

text \<open>
  What C leaves undefined is a value of the model: reading through the NULL
  \<open>dormantPhasePtr\<close>, and indexing an array outside its bounds.
\<close>

datatype fault = NullPointer | IndexOutOfRange

text \<open>
  The globals \<open>BLDC_motor\<close> (struct \<open>_bldc_motor\<close>), \<open>BLDC_command\<close> (struct
  \<open>_bldc_motor_command\<close>, fields \<open>cmd_direction\<close> and \<open>cmd_dutyCycle\<close>) and
  \<open>hallTableUtilized\<close>, with the trace \<open>pwm\<close> of the PWM driver calls made so far.
  \<open>sector\<close> is an \<open>int8_t\<close>: an 8-bit word read through \<open>sint\<close>.
  \<open>dormantPhasePtr\<close> points to one of the fields \<open>phaseA\<close>, \<open>phaseB\<close>, \<open>phaseC\<close>
  of the same struct or is NULL: \<open>Some p\<close> is the address of the field of phase \<open>p\<close>,
  \<open>None\<close> is NULL. \<open>hallToSector\<close> is the struct's own array of eight bytes.
\<close>

record bldc =
  state :: motor_state
  sector :: "8 word"
  dutyCycle :: u16
  startTimeAbs :: u32
  startCommutationTimeAbs :: u32
  lockUntilTimeAbs :: u32
  phaseA :: u16
  phaseB :: u16
  phaseC :: u16
  dormantPhasePtr :: "mpwm_phase option"
  direction :: motor_direction
  sensor :: motor_sensor
  hallToSector :: "u8 list"
  cmd_direction :: motor_direction
  cmd_dutyCycle :: u16
  hallTableUtilized :: u8
  pwm :: "mpwm_call list"

text \<open>The constant table \<open>hallToSector[12][8]\<close> of the file.\<close>

definition hallToSector_table :: "u8 list list" where
  "hallToSector_table =
    [[6,1,3,2,5,0,4,6],
     [6,0,2,1,4,5,3,6],
     [6,5,1,0,3,4,2,6],
     [6,4,0,5,2,3,1,6],
     [6,3,5,4,1,2,0,6],
     [6,2,4,3,0,1,5,6],
     [6,4,2,3,0,5,1,6],
     [6,3,1,2,5,4,0,6],
     [6,2,0,1,4,3,5,6],
     [6,1,5,0,3,2,4,6],
     [6,0,4,5,2,1,3,6],
     [6,5,3,4,1,0,2,6]]"

text \<open>
  The three Hall lines are pins 0, 1 and 2 of GPIO port B; \<open>pinB n\<close> is what
  \<open>GPIO_readInput(GPIO_PORT_B, n)\<close> returns. \<open>readHallValue\<close> is the sum that both
  \<open>BLDC_initPositionSensors\<close> and \<open>BLDC_determineSector\<close> build from them.
\<close>

definition readHallValue :: "(nat \<Rightarrow> bool) \<Rightarrow> nat" where
  "readHallValue pinB =
     of_bool (pinB 0) + push_bit 1 (of_bool (pinB 1)) + push_bit 2 (of_bool (pinB 2))"

section \<open>Operations\<close>

definition BLDC_stopMotor :: "bldc \<Rightarrow> bldc" where
  "BLDC_stopMotor w =
     w\<lparr>pwm := pwm w @
            [MPWM_setPhaseDutyCycle MPWM_PH_A MPWM_DORMANT 0,
             MPWM_setPhaseDutyCycle MPWM_PH_B MPWM_DORMANT 0,
             MPWM_setPhaseDutyCycle MPWM_PH_C MPWM_DORMANT 0],
       state := BLDC_STOPPED\<rparr>"

definition BLDC_commandDutyCycle :: "u16 \<Rightarrow> bldc \<Rightarrow> bldc" where
  "BLDC_commandDutyCycle d w = w\<lparr>cmd_dutyCycle := d\<rparr>"

definition BLDC_commandDirection :: "motor_direction \<Rightarrow> bldc \<Rightarrow> bldc" where
  "BLDC_commandDirection d w = w\<lparr>cmd_direction := d\<rparr>"

definition BLDC_getMotorState :: "bldc \<Rightarrow> motor_state" where
  "BLDC_getMotorState w = state w"

text \<open>
  \<open>BLDC_initPositionSensors\<close>: the loop over \<open>i < 8\<close> copies row
  \<open>hallTableUtilized\<close> of the constant table into the struct's array; a row index
  of 12 or more reads outside the table. The three \<open>GPIO_pinSetup\<close> calls configure
  the pins and touch none of the globals.
\<close>

definition BLDC_initPositionSensors :: "(nat \<Rightarrow> bool) \<Rightarrow> bldc \<Rightarrow> fault + bldc" where
  "BLDC_initPositionSensors pinB w =
     (let hallValue = readHallValue pinB in
      if hallValue \<noteq> 0 \<and> hallValue \<noteq> 7 then
        (if unat (hallTableUtilized w) < length hallToSector_table
         then Inr (w\<lparr>sensor := BLDC_HALL,
                      hallToSector := take 8 (hallToSector_table ! unat (hallTableUtilized w))\<rparr>)
         else Inl IndexOutOfRange)
      else Inr w)"

text \<open>
  \<open>BLDC_initMotor\<close>: the calls that configure the PWM driver and register the ADC
  handler change nothing of the globals and are not phase-duty calls; they leave no
  mark in the model.
\<close>

definition BLDC_initMotor :: "(nat \<Rightarrow> bool) \<Rightarrow> bldc \<Rightarrow> fault + bldc" where
  "BLDC_initMotor pinB w =
     BLDC_initPositionSensors pinB (BLDC_commandDirection BLDC_POS (BLDC_stopMotor w))"

text \<open>
  \<open>BLDC_determineSector\<close>: the byte of the table is stored into the \<open>int8_t\<close> sector
  with its bits unchanged. The struct's array has eight entries and the Hall value is
  at most 7; the bound is checked here because the model's array is a list. The
  \<open>default\<close> of the \<open>switch\<close> does what the sensorless case does: nothing.
\<close>

definition BLDC_determineSector :: "(nat \<Rightarrow> bool) \<Rightarrow> bldc \<Rightarrow> fault + bldc" where
  "BLDC_determineSector pinB w =
     (case sensor w of
        BLDC_SENSORLESS \<Rightarrow> Inr w
      | BLDC_HALL \<Rightarrow>
          (let hallValue = readHallValue pinB in
           if hallValue < length (hallToSector w)
           then Inr (w\<lparr>sector := hallToSector w ! hallValue\<rparr>)
           else Inl IndexOutOfRange))"

definition hiPhaseTable :: "mpwm_phase list" where
  "hiPhaseTable = [MPWM_PH_A, MPWM_PH_A, MPWM_PH_B, MPWM_PH_B, MPWM_PH_C, MPWM_PH_C]"

definition loPhaseTable :: "mpwm_phase list" where
  "loPhaseTable = [MPWM_PH_B, MPWM_PH_C, MPWM_PH_C, MPWM_PH_A, MPWM_PH_A, MPWM_PH_B]"

definition dormantPhaseTable :: "mpwm_phase list" where
  "dormantPhaseTable = [MPWM_PH_C, MPWM_PH_B, MPWM_PH_A, MPWM_PH_C, MPWM_PH_B, MPWM_PH_A]"

definition halfDutyCycle :: "u16 \<Rightarrow> u16" where
  "halfDutyCycle d = drop_bit 1 d"

definition highSideDutyCycle :: "u16 \<Rightarrow> u16" where
  "highSideDutyCycle d = 32767 + halfDutyCycle d"

definition lowSideDutyCycle :: "u16 \<Rightarrow> u16" where
  "lowSideDutyCycle d = 32767 - halfDutyCycle d"

text \<open>
  The first statement of \<open>BLDC_commutate\<close>: \<open>++sector > 5\<close> and \<open>--sector < 0\<close> on
  the \<open>int8_t\<close>, the new value compared as a signed number.
\<close>

definition nextSector :: "motor_direction \<Rightarrow> 8 word \<Rightarrow> 8 word" where
  "nextSector dir s =
     (if dir = BLDC_POS
      then (if 5 < sint (s + 1) then 0 else s + 1)
      else (if sint (s - 1) < 0 then 5 else s - 1))"

text \<open>
  \<open>BLDC_commutate\<close>; \<open>now\<close> is what \<open>MSTMR_getMilliSeconds()\<close> returns. The three
  phase tables have six entries: a sector outside 0..5 after the advance indexes
  outside them. The \<open>switch\<close> over the dormant phase keeps its three cases; its
  \<open>default\<close> (NULL) has no enumerator left to take it.
\<close>

definition BLDC_commutate :: "u32 \<Rightarrow> bldc \<Rightarrow> fault + bldc" where
  "BLDC_commutate now w =
     (let w1 = w\<lparr>sector := nextSector (direction w) (sector w)\<rparr> in
      if sint (sector w1) < 0 \<or> 6 \<le> sint (sector w1) then Inl IndexOutOfRange
      else
        let i = nat (sint (sector w1));
            w2 = w1\<lparr>pwm := pwm w1 @
                   [MPWM_setPhaseDutyCycle (dormantPhaseTable ! i) MPWM_DORMANT (dutyCycle w1),
                    MPWM_setPhaseDutyCycle (hiPhaseTable ! i) MPWM_HI_STATE
                      (highSideDutyCycle (dutyCycle w1)),
                    MPWM_setPhaseDutyCycle (loPhaseTable ! i) MPWM_HI_STATE
                      (lowSideDutyCycle (dutyCycle w1))]\<rparr>;
            w3 = w2\<lparr>dormantPhasePtr :=
                   (case dormantPhaseTable ! i of
                      MPWM_PH_A \<Rightarrow> Some MPWM_PH_A
                    | MPWM_PH_B \<Rightarrow> Some MPWM_PH_B
                    | MPWM_PH_C \<Rightarrow> Some MPWM_PH_C)\<rparr>
        in Inr (if state w3 = BLDC_STARTING
                then w3\<lparr>startCommutationTimeAbs := now\<rparr> else w3))"

text \<open>
  \<open>BLDC_startMotor\<close>. \<open>BLDC_MIN_DUTY_CYCLE\<close> is a macro of motorBldc.h and is taken
  as the parameter \<open>min_duty\<close>. The clock is read twice, for \<open>startTimeAbs\<close> and
  inside \<open>BLDC_commutate\<close>; one call is taken to run within one clock value \<open>now\<close>.
\<close>

definition BLDC_startMotor :: "u16 \<Rightarrow> (nat \<Rightarrow> bool) \<Rightarrow> u32 \<Rightarrow> bldc \<Rightarrow> fault + bldc" where
  "BLDC_startMotor min_duty pinB now w =
     (if state w = BLDC_STOPPED then
        (case BLDC_determineSector pinB
                (w\<lparr>sector := 0, state := BLDC_STARTING, startTimeAbs := now,
                   dutyCycle := min_duty, direction := cmd_direction w\<rparr>) of
           Inl e \<Rightarrow> Inl e
         | Inr w1 \<Rightarrow> BLDC_commutate now w1)
      else Inr w)"

text \<open>\<open>*BLDC_motor.dormantPhasePtr\<close>: the sampled voltage of the dormant phase.\<close>

definition dormantPhaseVoltage :: "bldc \<Rightarrow> fault + u16" where
  "dormantPhaseVoltage w =
     (case dormantPhasePtr w of
        None \<Rightarrow> Inl NullPointer
      | Some MPWM_PH_A \<Rightarrow> Inr (phaseA w)
      | Some MPWM_PH_B \<Rightarrow> Inr (phaseB w)
      | Some MPWM_PH_C \<Rightarrow> Inr (phaseC w))"

text \<open>
  \<open>BLDC_adcInterrupt\<close>; \<open>adc ch\<close> is what \<open>ADC_getVoltage(ch)\<close> returns and \<open>now\<close>
  what \<open>MSTMR_getMilliSeconds()\<close> returns during the call. In the starting state both
  branches of the parity test read through \<open>dormantPhasePtr\<close>; the sum
  \<open>startCommutationTimeAbs + 25\<close> is a \<open>uint32_t\<close> and wraps. The running state and
  the \<open>default\<close> of the \<open>switch\<close> only keep the sampled voltages.
\<close>

definition BLDC_adcInterrupt :: "(adc_channel \<Rightarrow> u16) \<Rightarrow> u32 \<Rightarrow> bldc \<Rightarrow> fault + bldc" where
  "BLDC_adcInterrupt adc now w =
     (let w1 = w\<lparr>phaseA := adc ADC_PH_A, phaseB := adc ADC_PH_B, phaseC := adc ADC_PH_C\<rparr>;
          neutralVoltage = (drop_bit 1 (adc ADC_V_BUS) :: u16)
      in case state w1 of
           BLDC_LOCKED \<Rightarrow>
             Inr (if lockUntilTimeAbs w1 < now then w1\<lparr>state := BLDC_STOPPED\<rparr> else w1)
         | BLDC_STOPPED \<Rightarrow> Inr w1
         | BLDC_STARTING \<Rightarrow>
             (case dormantPhaseVoltage w1 of
                Inl e \<Rightarrow> Inl e
              | Inr v \<Rightarrow>
                  (case (if sector w1 AND 1 = 1
                         then (if v < neutralVoltage then BLDC_commutate now w1 else Inr w1)
                         else (if neutralVoltage < v then BLDC_commutate now w1 else Inr w1)) of
                     Inl e \<Rightarrow> Inl e
                   | Inr w2 \<Rightarrow>
                       if startCommutationTimeAbs w2 + 25 < now
                       then BLDC_commutate now w2 else Inr w2))
         | BLDC_RUNNING \<Rightarrow> Inr w1)"

section \<open>The program as a whole\<close>

text \<open>
  The globals as C leaves them before \<open>main\<close>: every field zero, \<open>hallTableUtilized\<close>
  by its initialiser 0. Which enumerator of the state, the direction and the sensor
  has the value 0 is decided in motorBldc.h; they are the parameters.
\<close>

definition power_on :: "motor_state \<Rightarrow> motor_direction \<Rightarrow> motor_sensor \<Rightarrow> bldc" where
  "power_on st dir sk =
     \<lparr>state = st, sector = 0, dutyCycle = 0, startTimeAbs = 0,
      startCommutationTimeAbs = 0, lockUntilTimeAbs = 0,
      phaseA = 0, phaseB = 0, phaseC = 0, dormantPhasePtr = None,
      direction = dir, sensor = sk, hallToSector = replicate 8 0,
      cmd_direction = dir, cmd_dutyCycle = 0, hallTableUtilized = 0, pwm = []\<rparr>"

text \<open>
  What the application and the hardware do after \<open>BLDC_initMotor\<close>: the public
  functions and the ADC handler, each with the inputs it reads. \<open>run_calls\<close> runs
  them one after another, each from its first statement to its last: the handler is
  an interrupt, and the runs in which it comes in the middle of another function are
  not among these.
\<close>

datatype api_call =
    StartMotor "nat \<Rightarrow> bool" u32
  | StopMotor
  | CommandDutyCycle u16
  | CommandDirection motor_direction
  | AdcInterrupt "adc_channel \<Rightarrow> u16" u32

fun do_call :: "u16 \<Rightarrow> api_call \<Rightarrow> bldc \<Rightarrow> fault + bldc" where
  "do_call md (StartMotor pinB now) w = BLDC_startMotor md pinB now w"
| "do_call md StopMotor w = Inr (BLDC_stopMotor w)"
| "do_call md (CommandDutyCycle d) w = Inr (BLDC_commandDutyCycle d w)"
| "do_call md (CommandDirection d) w = Inr (BLDC_commandDirection d w)"
| "do_call md (AdcInterrupt adc now) w = BLDC_adcInterrupt adc now w"

fun run_calls :: "u16 \<Rightarrow> api_call list \<Rightarrow> bldc \<Rightarrow> fault + bldc" where
  "run_calls md [] w = Inr w"
| "run_calls md (c # cs) w =
     (case do_call md c w of Inl e \<Rightarrow> Inl e | Inr w' \<Rightarrow> run_calls md cs w')"

text \<open>\<open>BLDC_commutate\<close> called \<open>n\<close> times in a row.\<close>

fun commutate_times :: "nat \<Rightarrow> u32 \<Rightarrow> bldc \<Rightarrow> fault + bldc" where
  "commutate_times 0 now w = Inr w"
| "commutate_times (Suc n) now w =
     (case BLDC_commutate now w of Inl e \<Rightarrow> Inl e | Inr w' \<Rightarrow> commutate_times n now w')"

text \<open>
  Modelled from the spec: the PWM driver (mpwm.c) is not part of the sources. Its
  interface is "PWM phase-duty programming: (phase, mode, duty) to void"; the drive
  output of a phase is taken to be the mode and duty of the last call made for it.
\<close>

fun MPWM_program ::
  "mpwm_call \<Rightarrow> (mpwm_phase \<Rightarrow> (mpwm_mode \<times> u16) option) \<Rightarrow> mpwm_phase \<Rightarrow> (mpwm_mode \<times> u16) option"
where
  "MPWM_program (MPWM_setPhaseDutyCycle p m d) out = out(p := Some (m, d))"

definition MPWM_driveOutput :: "mpwm_call list \<Rightarrow> mpwm_phase \<Rightarrow> (mpwm_mode \<times> u16) option" where
  "MPWM_driveOutput calls = fold MPWM_program calls (\<lambda>p. None)"

text \<open>
  The spec's table of phase roles, sector to (high, low, dormant), in its words:
  0 to (A,B,C), 1 to (A,C,B), 2 to (B,C,A), 3 to (B,A,C), 4 to (C,A,B), 5 to (C,B,A).
\<close>

definition spec_phaseRoles :: "(mpwm_phase \<times> mpwm_phase \<times> mpwm_phase) list" where
  "spec_phaseRoles =
     [(MPWM_PH_A, MPWM_PH_B, MPWM_PH_C),
      (MPWM_PH_A, MPWM_PH_C, MPWM_PH_B),
      (MPWM_PH_B, MPWM_PH_C, MPWM_PH_A),
      (MPWM_PH_B, MPWM_PH_A, MPWM_PH_C),
      (MPWM_PH_C, MPWM_PH_A, MPWM_PH_B),
      (MPWM_PH_C, MPWM_PH_B, MPWM_PH_A)]"

text \<open>The three PWM calls of one commutation that lands in sector \<open>s\<close> with duty \<open>d\<close>.\<close>

definition commutation_calls :: "8 word \<Rightarrow> u16 \<Rightarrow> mpwm_call list" where
  "commutation_calls s d =
     [MPWM_setPhaseDutyCycle (dormantPhaseTable ! nat (sint s)) MPWM_DORMANT d,
      MPWM_setPhaseDutyCycle (hiPhaseTable ! nat (sint s)) MPWM_HI_STATE (highSideDutyCycle d),
      MPWM_setPhaseDutyCycle (loPhaseTable ! nat (sint s)) MPWM_HI_STATE (lowSideDutyCycle d)]"

text \<open>
  Well-formedness of the struct's Hall array: eight entries, none above the sentinel 6,
  as every row of the constant table and the zeroed array are.
\<close>

definition table_ok :: "bldc \<Rightarrow> bool" where
  "table_ok w = (length (hallToSector w) = 8 \<and> list_all (\<lambda>b. b \<le> 6) (hallToSector w))"

definition sector_ok :: "bldc \<Rightarrow> bool" where
  "sector_ok w = (0 \<le> sint (sector w) \<and> sint (sector w) \<le> 5)"

text \<open>
  The condition each function re-establishes when it is run from its first statement
  to its last: the sector is in 0..5, the Hall array is well formed, and in the
  starting state \<open>dormantPhasePtr\<close> is not NULL.
\<close>

definition bldc_inv :: "bldc \<Rightarrow> bool" where
  "bldc_inv w =
     (sector_ok w \<and> table_ok w \<and> (state w = BLDC_STARTING \<longrightarrow> dormantPhasePtr w \<noteq> None))"

section \<open>Duty cycles of a commutation\<close>

lemma halfDutyCycle_le: "unat (halfDutyCycle d) \<le> 32767"
proof -
  have "unat d < 65536"
    using unsigned_less [of d, where 'a = nat] by simp
  then show ?thesis
    by (simp add: halfDutyCycle_def drop_bit_eq_div unat_div)
qed

lemma unat_highSideDutyCycle:
  "unat (highSideDutyCycle d) = 32767 + unat (halfDutyCycle d)"
  using halfDutyCycle_le [of d] unfolding highSideDutyCycle_def
  by (simp add: unat_word_ariths)

lemma unat_lowSideDutyCycle:
  "unat (lowSideDutyCycle d) = 32767 - unat (halfDutyCycle d)"
  using halfDutyCycle_le [of d] unfolding lowSideDutyCycle_def
  by (simp add: unat_sub_if' word_le_nat_alt)

text \<open>
  C7. For every 16-bit duty cycle, the high-side and low-side duties that
  \<open>BLDC_commutate\<close> computes add up to 65534, as 16-bit words and as numbers:
  the half duty is at most 32767, so neither \<open>32767 + half\<close> nor \<open>32767 - half\<close>
  leaves the 16-bit range.
\<close>

theorem duty_sides_sum_65534:
  "highSideDutyCycle d + lowSideDutyCycle d = 65534
   \<and> unat (halfDutyCycle d) = unat d div 2
   \<and> unat (highSideDutyCycle d) = 32767 + unat (halfDutyCycle d)
   \<and> unat (lowSideDutyCycle d) + unat (halfDutyCycle d) = 32767
   \<and> unat (highSideDutyCycle d) + unat (lowSideDutyCycle d) = 65534"
proof -
  have sum: "highSideDutyCycle d + lowSideDutyCycle d = 65534"
    by (simp add: highSideDutyCycle_def lowSideDutyCycle_def)
  have half: "unat (halfDutyCycle d) = unat d div 2"
    by (simp add: halfDutyCycle_def drop_bit_eq_div unat_div)
  show ?thesis
    using sum half halfDutyCycle_le [of d]
    by (simp add: unat_highSideDutyCycle unat_lowSideDutyCycle)
qed

section \<open>Sector advance and phase roles of a commutation\<close>

lemma small_sector_cases:
  assumes "0 \<le> sint (s :: 8 word)" and "sint s \<le> 6"
  shows "s = 0 \<or> s = 1 \<or> s = 2 \<or> s = 3 \<or> s = 4 \<or> s = 5 \<or> s = 6"
proof -
  from assms have "sint s = 0 \<or> sint s = 1 \<or> sint s = 2 \<or> sint s = 3
      \<or> sint s = 4 \<or> sint s = 5 \<or> sint s = 6"
    by arith
  then show ?thesis
    by (auto dest!: arg_cong [where f = "word_of_int :: int \<Rightarrow> 8 word"])
qed

lemma nextSector_range:
  assumes "0 \<le> sint s" and "sint s \<le> 6"
  shows "0 \<le> sint (nextSector d s) \<and> sint (nextSector d s) \<le> 5"
  using small_sector_cases [OF assms] by (cases d) (auto simp: nextSector_def)

lemma nextSector_mod:
  assumes "0 \<le> sint s" and "sint s \<le> 5"
  shows "sint (nextSector d s) =
    (case d of BLDC_POS \<Rightarrow> (sint s + 1) mod 6 | BLDC_NEG \<Rightarrow> (sint s + 5) mod 6)"
proof -
  have "s = 0 \<or> s = 1 \<or> s = 2 \<or> s = 3 \<or> s = 4 \<or> s = 5 \<or> s = 6"
    using assms by (intro small_sector_cases) auto
  moreover have "s \<noteq> 6"
    using assms by auto
  ultimately show ?thesis
    by (cases d) (auto simp: nextSector_def)
qed

lemma dormant_switch:
  "(case p of MPWM_PH_A \<Rightarrow> Some MPWM_PH_A | MPWM_PH_B \<Rightarrow> Some MPWM_PH_B
     | MPWM_PH_C \<Rightarrow> Some MPWM_PH_C) = Some p"
  by (cases p) simp_all

text \<open>\<open>BLDC_commutate\<close> in one piece: the fault, or the globals after the call.\<close>

lemma commutate_eq:
  "BLDC_commutate now w =
    (let s = nextSector (direction w) (sector w) in
     if sint s < 0 \<or> 6 \<le> sint s then Inl IndexOutOfRange
     else Inr (w\<lparr>sector := s,
                 pwm := pwm w @ commutation_calls s (dutyCycle w),
                 dormantPhasePtr := Some (dormantPhaseTable ! nat (sint s)),
                 startCommutationTimeAbs :=
                   (if state w = BLDC_STARTING then now else startCommutationTimeAbs w)\<rparr>))"
  by (simp add: BLDC_commutate_def Let_def dormant_switch commutation_calls_def)

lemma commutate_in_range:
  assumes "0 \<le> sint (sector w)" and "sint (sector w) \<le> 6"
  shows "BLDC_commutate now w =
     Inr (w\<lparr>sector := nextSector (direction w) (sector w),
            pwm := pwm w @ commutation_calls (nextSector (direction w) (sector w)) (dutyCycle w),
            dormantPhasePtr :=
              Some (dormantPhaseTable ! nat (sint (nextSector (direction w) (sector w)))),
            startCommutationTimeAbs :=
              (if state w = BLDC_STARTING then now else startCommutationTimeAbs w)\<rparr>)"
  using nextSector_range [OF assms, of "direction w"]
  by (simp add: commutate_eq Let_def)

lemma roles_at:
  assumes "0 \<le> sint (s :: 8 word)" and "sint s \<le> 5"
  shows "(hiPhaseTable ! nat (sint s), loPhaseTable ! nat (sint s), dormantPhaseTable ! nat (sint s))
      = spec_phaseRoles ! nat (sint s)
    \<and> distinct [hiPhaseTable ! nat (sint s), loPhaseTable ! nat (sint s),
        dormantPhaseTable ! nat (sint s)]"
proof -
  have "s = 0 \<or> s = 1 \<or> s = 2 \<or> s = 3 \<or> s = 4 \<or> s = 5 \<or> s = 6"
    using assms by (intro small_sector_cases) auto
  moreover have "s \<noteq> 6"
    using assms by auto
  ultimately show ?thesis
    by (auto simp: hiPhaseTable_def loPhaseTable_def dormantPhaseTable_def spec_phaseRoles_def)
qed

lemma phases_all:
  assumes "distinct [a, b, c :: mpwm_phase]"
  shows "set [a, b, c] = {MPWM_PH_A, MPWM_PH_B, MPWM_PH_C}"
  using assms by (cases a; cases b; cases c) auto

lemma mod6_add_step: "((a + 1) mod 6 + b) mod 6 = (a + (b + 1)) mod (6::int)"
  by (simp add: mod_simps algebra_simps)

lemma mod6_sub_step: "((a + 5) mod 6 - b) mod 6 = (a - (b + 1)) mod (6::int)"
proof -
  have "((a + 5) mod 6 - b) mod 6 = (a + 5 - b) mod 6"
    by (simp add: mod_simps)
  also have "a + 5 - b = (a - (b + 1)) + 6"
    by simp
  also have "((a - (b + 1)) + 6) mod 6 = (a - (b + 1)) mod 6"
    by (rule mod_add_self2)
  finally show ?thesis .
qed

lemma commutate_times_sector:
  assumes "0 \<le> sint (sector w)" and "sint (sector w) \<le> 5"
  shows "\<exists>w'. commutate_times n now w = Inr w' \<and> direction w' = direction w
     \<and> sint (sector w') =
        (case direction w of BLDC_POS \<Rightarrow> (sint (sector w) + int n) mod 6
         | BLDC_NEG \<Rightarrow> (sint (sector w) - int n) mod 6)"
  using assms
proof (induction n arbitrary: w)
  case 0
  then show ?case by (cases "direction w") simp_all
next
  case (Suc n)
  let ?w1 = "w\<lparr>sector := nextSector (direction w) (sector w),
            pwm := pwm w @ commutation_calls (nextSector (direction w) (sector w)) (dutyCycle w),
            dormantPhasePtr :=
              Some (dormantPhaseTable ! nat (sint (nextSector (direction w) (sector w)))),
            startCommutationTimeAbs :=
              (if state w = BLDC_STARTING then now else startCommutationTimeAbs w)\<rparr>"
  have step: "BLDC_commutate now w = Inr ?w1"
    using Suc.prems by (intro commutate_in_range) auto
  have rng: "0 \<le> sint (sector ?w1) \<and> sint (sector ?w1) \<le> 5"
    using nextSector_range [of "sector w" "direction w"] Suc.prems by simp
  have nxt: "sint (sector ?w1) =
      (case direction w of BLDC_POS \<Rightarrow> (sint (sector w) + 1) mod 6
       | BLDC_NEG \<Rightarrow> (sint (sector w) + 5) mod 6)"
    using nextSector_mod [of "sector w" "direction w"] Suc.prems by simp
  from Suc.IH [of ?w1] rng obtain w' where
    w': "commutate_times n now ?w1 = Inr w'" "direction w' = direction ?w1"
      "sint (sector w') =
        (case direction ?w1 of BLDC_POS \<Rightarrow> (sint (sector ?w1) + int n) mod 6
         | BLDC_NEG \<Rightarrow> (sint (sector ?w1) - int n) mod 6)"
    by blast
  have "commutate_times (Suc n) now w = Inr w'"
    using step w'(1) by simp
  moreover have "direction w' = direction w"
    using w'(2) by simp
  moreover have "sint (sector w') =
        (case direction w of BLDC_POS \<Rightarrow> (sint (sector w) + int (Suc n)) mod 6
         | BLDC_NEG \<Rightarrow> (sint (sector w) - int (Suc n)) mod 6)"
  proof (cases "direction w")
    case BLDC_POS
    then have "sint (sector w') = ((sint (sector w) + 1) mod 6 + int n) mod 6"
      using w'(3) nxt by simp
    also have "\<dots> = (sint (sector w) + int (Suc n)) mod 6"
      using mod6_add_step [of "sint (sector w)" "int n"] by (simp add: algebra_simps)
    finally show ?thesis using BLDC_POS by simp
  next
    case BLDC_NEG
    then have "sint (sector w') = ((sint (sector w) + 5) mod 6 - int n) mod 6"
      using w'(3) nxt by simp
    also have "\<dots> = (sint (sector w) - int (Suc n)) mod 6"
      using mod6_sub_step [of "sint (sector w)" "int n"] by (simp add: algebra_simps)
    finally show ?thesis using BLDC_NEG by simp
  qed
  ultimately show ?case by blast
qed

text \<open>
  C5. From a sector in 0..5, \<open>BLDC_commutate\<close> moves the sector to \<open>(sector + 1) mod 6\<close>
  when the direction is positive and to \<open>(sector + 5) mod 6\<close> when it is negative.
  So \<open>n\<close> commutations from sector 0 end in sector \<open>n mod 6\<close> under the positive
  direction (0,1,2,3,4,5,0,...) and in sector \<open>(-n) mod 6\<close> under the negative one
  (0,5,4,3,2,1,0,...); none of them faults.
\<close>

theorem commutate_sector_sequence:
  "(0 \<le> sint (sector w) \<and> sint (sector w) \<le> 5 \<longrightarrow>
      (\<exists>w'. BLDC_commutate now w = Inr w' \<and>
         sint (sector w') =
           (case direction w of BLDC_POS \<Rightarrow> (sint (sector w) + 1) mod 6
            | BLDC_NEG \<Rightarrow> (sint (sector w) + 5) mod 6)))
   \<and> (sector w = 0 \<longrightarrow>
      (\<exists>w'. commutate_times n now w = Inr w' \<and>
         sint (sector w') =
           (case direction w of BLDC_POS \<Rightarrow> int n mod 6 | BLDC_NEG \<Rightarrow> (- int n) mod 6)))"
proof (intro conjI impI)
  assume rng: "0 \<le> sint (sector w) \<and> sint (sector w) \<le> 5"
  then have "0 \<le> sint (sector w)" and "sint (sector w) \<le> 6"
    by auto
  from commutate_in_range [OF this, of now] nextSector_mod [of "sector w" "direction w"] rng
  show "\<exists>w'. BLDC_commutate now w = Inr w' \<and>
         sint (sector w') =
           (case direction w of BLDC_POS \<Rightarrow> (sint (sector w) + 1) mod 6
            | BLDC_NEG \<Rightarrow> (sint (sector w) + 5) mod 6)"
    by simp
next
  assume z: "sector w = 0"
  then have "0 \<le> sint (sector w)" and "sint (sector w) \<le> 5"
    by simp_all
  from commutate_times_sector [OF this, of n now] z
  show "\<exists>w'. commutate_times n now w = Inr w' \<and>
         sint (sector w') =
           (case direction w of BLDC_POS \<Rightarrow> int n mod 6 | BLDC_NEG \<Rightarrow> (- int n) mod 6)"
    by (cases "direction w") auto
qed

theorem commutate_sector_sequence_witness:
  "(\<exists>w'. BLDC_commutate 0 ((power_on BLDC_STARTING BLDC_POS BLDC_SENSORLESS)\<lparr>sector := 5\<rparr>) = Inr w'
      \<and> sint (sector w') = 0)
   \<and> (\<exists>w'. commutate_times 7 0 (power_on BLDC_STARTING BLDC_NEG BLDC_SENSORLESS) = Inr w'
      \<and> sint (sector w') = 5)"
  using commutate_sector_sequence
      [of "(power_on BLDC_STARTING BLDC_POS BLDC_SENSORLESS)\<lparr>sector := 5\<rparr>" 0 7]
    commutate_sector_sequence [of "power_on BLDC_STARTING BLDC_NEG BLDC_SENSORLESS" 0 7]
  by (simp add: power_on_def)

text \<open>
  C6. The three phase tables of \<open>BLDC_commutate\<close>, read side by side, are the spec's
  table sector to (high, low, dormant). A commutation from a sector in 0..5, in either
  direction, programs the dormant phase of the new sector in dormant mode and its high
  and low phase in drive mode, records the dormant phase, and the three phases are
  pairwise different: a permutation of A, B, C.
\<close>

theorem commutate_phase_roles:
  assumes "0 \<le> sint (sector w)" and "sint (sector w) \<le> 5"
  shows "zip hiPhaseTable (zip loPhaseTable dormantPhaseTable) = spec_phaseRoles
    \<and> (\<exists>w' hi lo dorm.
         BLDC_commutate now w = Inr w'
         \<and> nat (sint (sector w')) < length spec_phaseRoles
         \<and> spec_phaseRoles ! nat (sint (sector w')) = (hi, lo, dorm)
         \<and> pwm w' = pwm w @
             [MPWM_setPhaseDutyCycle dorm MPWM_DORMANT (dutyCycle w),
              MPWM_setPhaseDutyCycle hi MPWM_HI_STATE (highSideDutyCycle (dutyCycle w)),
              MPWM_setPhaseDutyCycle lo MPWM_HI_STATE (lowSideDutyCycle (dutyCycle w))]
         \<and> dormantPhasePtr w' = Some dorm
         \<and> distinct [hi, lo, dorm]
         \<and> set [hi, lo, dorm] = {MPWM_PH_A, MPWM_PH_B, MPWM_PH_C})"
proof -
  let ?s = "nextSector (direction w) (sector w)"
  have tables: "zip hiPhaseTable (zip loPhaseTable dormantPhaseTable) = spec_phaseRoles"
    by (simp add: hiPhaseTable_def loPhaseTable_def dormantPhaseTable_def spec_phaseRoles_def)
  have in6: "0 \<le> sint (sector w)" "sint (sector w) \<le> 6"
    using assms by auto
  have rng: "0 \<le> sint ?s" "sint ?s \<le> 5"
    using nextSector_range [OF in6, of "direction w"] by auto
  have roles: "(hiPhaseTable ! nat (sint ?s), loPhaseTable ! nat (sint ?s),
        dormantPhaseTable ! nat (sint ?s)) = spec_phaseRoles ! nat (sint ?s)"
    and dist: "distinct [hiPhaseTable ! nat (sint ?s), loPhaseTable ! nat (sint ?s),
        dormantPhaseTable ! nat (sint ?s)]"
    using roles_at [OF rng] by auto
  have len: "nat (sint ?s) < length spec_phaseRoles"
    using rng by (simp add: spec_phaseRoles_def)
  have all3: "set [hiPhaseTable ! nat (sint ?s), loPhaseTable ! nat (sint ?s),
        dormantPhaseTable ! nat (sint ?s)] = {MPWM_PH_A, MPWM_PH_B, MPWM_PH_C}"
    using phases_all [OF dist] .
  show ?thesis
    using tables commutate_in_range [OF in6, of now] roles [symmetric] dist len all3
    by (simp add: commutation_calls_def)
qed

theorem commutate_phase_roles_witness:
  "\<exists>w' hi lo dorm.
     BLDC_commutate 0 ((power_on BLDC_STARTING BLDC_NEG BLDC_SENSORLESS)\<lparr>sector := 3\<rparr>) = Inr w'
     \<and> spec_phaseRoles ! nat (sint (sector w')) = (hi, lo, dorm)
     \<and> pwm w' =
         [MPWM_setPhaseDutyCycle dorm MPWM_DORMANT 0,
          MPWM_setPhaseDutyCycle hi MPWM_HI_STATE (highSideDutyCycle 0),
          MPWM_setPhaseDutyCycle lo MPWM_HI_STATE (lowSideDutyCycle 0)]
     \<and> dormantPhasePtr w' = Some dorm
     \<and> distinct [hi, lo, dorm]"
  using commutate_phase_roles
      [of "(power_on BLDC_STARTING BLDC_NEG BLDC_SENSORLESS)\<lparr>sector := 3\<rparr>" 0]
  by (simp add: power_on_def) blast

text \<open>
  C10. \<open>BLDC_commutate\<close> returns for every sector in 0..6, the sentinel 6 of the Hall
  table included: the sector is advanced and wrapped first, 6 becomes 0 under the
  positive direction and 5 under the negative one, the three six-entry tables are
  indexed with the wrapped sector, inside their bounds, and \<open>dormantPhasePtr\<close> is
  never left NULL.
\<close>

theorem commutate_total_with_sentinel:
  assumes "0 \<le> sint (sector w)" and "sint (sector w) \<le> 6"
  shows "\<exists>w'. BLDC_commutate now w = Inr w'
     \<and> sector w' = nextSector (direction w) (sector w)
     \<and> 0 \<le> sint (sector w') \<and> sint (sector w') \<le> 5
     \<and> nat (sint (sector w')) < length hiPhaseTable
     \<and> nat (sint (sector w')) < length loPhaseTable
     \<and> nat (sint (sector w')) < length dormantPhaseTable
     \<and> dormantPhasePtr w' = Some (dormantPhaseTable ! nat (sint (sector w')))
     \<and> nextSector BLDC_POS 6 = 0 \<and> nextSector BLDC_NEG 6 = 5"
proof -
  have "0 \<le> sint (nextSector (direction w) (sector w))"
    and "sint (nextSector (direction w) (sector w)) \<le> 5"
    using nextSector_range [OF assms, of "direction w"] by auto
  then show ?thesis
    using commutate_in_range [OF assms, of now]
    by (simp add: hiPhaseTable_def loPhaseTable_def dormantPhaseTable_def nextSector_def)
qed

theorem commutate_total_with_sentinel_witness:
  "(\<exists>w'. BLDC_commutate 0 ((power_on BLDC_STARTING BLDC_POS BLDC_HALL)\<lparr>sector := 6\<rparr>) = Inr w'
      \<and> sector w' = 0 \<and> dormantPhasePtr w' = Some MPWM_PH_C)
   \<and> (\<exists>w'. BLDC_commutate 0 ((power_on BLDC_STARTING BLDC_NEG BLDC_HALL)\<lparr>sector := 6\<rparr>) = Inr w'
      \<and> sector w' = 5 \<and> dormantPhasePtr w' = Some MPWM_PH_A)"
  using commutate_total_with_sentinel
      [of "(power_on BLDC_STARTING BLDC_POS BLDC_HALL)\<lparr>sector := 6\<rparr>" 0]
    commutate_total_with_sentinel
      [of "(power_on BLDC_STARTING BLDC_NEG BLDC_HALL)\<lparr>sector := 6\<rparr>" 0]
  by (auto simp: power_on_def nextSector_def dormantPhaseTable_def)

section \<open>Stopping, the lock timer and starting\<close>

lemma driveOutput_stopMotor:
  "MPWM_driveOutput (pwm (BLDC_stopMotor w)) = (\<lambda>p. Some (MPWM_DORMANT, 0))"
proof
  fix p
  show "MPWM_driveOutput (pwm (BLDC_stopMotor w)) p = Some (MPWM_DORMANT, 0)"
    by (cases p) (simp_all add: MPWM_driveOutput_def BLDC_stopMotor_def)
qed

text \<open>
  C8. \<open>BLDC_stopMotor\<close> has no condition: from any state it makes the three calls
  that put phases A, B and C in dormant mode at duty 0, so that every phase's drive
  output is (dormant, 0), and sets the state to stopped; it changes nothing else. A
  second call in a row gives the same drive outputs and the same state, and differs
  from the first only by the three repeated calls in the trace.
\<close>

theorem stopMotor_idempotent:
  "state (BLDC_stopMotor w) = BLDC_STOPPED
   \<and> pwm (BLDC_stopMotor w) = pwm w @
        [MPWM_setPhaseDutyCycle MPWM_PH_A MPWM_DORMANT 0,
         MPWM_setPhaseDutyCycle MPWM_PH_B MPWM_DORMANT 0,
         MPWM_setPhaseDutyCycle MPWM_PH_C MPWM_DORMANT 0]
   \<and> MPWM_driveOutput (pwm (BLDC_stopMotor w)) = (\<lambda>p. Some (MPWM_DORMANT, 0))
   \<and> (BLDC_stopMotor w)\<lparr>pwm := pwm w, state := state w\<rparr> = w
   \<and> state (BLDC_stopMotor (BLDC_stopMotor w)) = BLDC_STOPPED
   \<and> MPWM_driveOutput (pwm (BLDC_stopMotor (BLDC_stopMotor w)))
        = MPWM_driveOutput (pwm (BLDC_stopMotor w))
   \<and> (BLDC_stopMotor (BLDC_stopMotor w))\<lparr>pwm := pwm (BLDC_stopMotor w)\<rparr> = BLDC_stopMotor w"
proof -
  have "MPWM_driveOutput (pwm (BLDC_stopMotor (BLDC_stopMotor w)))
        = MPWM_driveOutput (pwm (BLDC_stopMotor w))"
    by (simp only: driveOutput_stopMotor)
  then show ?thesis
    using driveOutput_stopMotor [of w] by (simp add: BLDC_stopMotor_def)
qed

text \<open>
  C9. In the locked state the sampling handler stores the three sampled phase
  voltages and does nothing else unless the clock is strictly greater (as unsigned
  32-bit numbers) than \<open>lockUntilTimeAbs\<close>, in which case it also sets the state to
  stopped. At or before the expiry time the state stays locked; the handler never
  faults in this state.
\<close>

theorem adcInterrupt_locked:
  assumes "state w = BLDC_LOCKED"
  shows "BLDC_adcInterrupt adc now w =
     Inr (w\<lparr>phaseA := adc ADC_PH_A, phaseB := adc ADC_PH_B, phaseC := adc ADC_PH_C,
            state := (if unat (lockUntilTimeAbs w) < unat now then BLDC_STOPPED
                      else BLDC_LOCKED)\<rparr>)"
  using assms by (simp add: BLDC_adcInterrupt_def word_less_nat_alt)

theorem adcInterrupt_locked_witness:
  "BLDC_adcInterrupt (\<lambda>ch. 7) 1000
      ((power_on BLDC_LOCKED BLDC_POS BLDC_SENSORLESS)\<lparr>lockUntilTimeAbs := 1000\<rparr>)
    = Inr ((power_on BLDC_LOCKED BLDC_POS BLDC_SENSORLESS)
             \<lparr>lockUntilTimeAbs := 1000, phaseA := 7, phaseB := 7, phaseC := 7\<rparr>)
   \<and> BLDC_adcInterrupt (\<lambda>ch. 7) 1001
      ((power_on BLDC_LOCKED BLDC_POS BLDC_SENSORLESS)\<lparr>lockUntilTimeAbs := 1000\<rparr>)
    = Inr ((power_on BLDC_LOCKED BLDC_POS BLDC_SENSORLESS)
             \<lparr>lockUntilTimeAbs := 1000, phaseA := 7, phaseB := 7, phaseC := 7,
               state := BLDC_STOPPED\<rparr>)"
  using adcInterrupt_locked
      [of "(power_on BLDC_LOCKED BLDC_POS BLDC_SENSORLESS)\<lparr>lockUntilTimeAbs := 1000\<rparr>"
        "\<lambda>ch. 7" 1000]
    adcInterrupt_locked
      [of "(power_on BLDC_LOCKED BLDC_POS BLDC_SENSORLESS)\<lparr>lockUntilTimeAbs := 1000\<rparr>"
        "\<lambda>ch. 7" 1001]
  by (simp add: power_on_def)

lemma readHallValue_less: "readHallValue pinB < 8"
  by (simp add: readHallValue_def of_bool_def)

lemma byte_le_6_cases:
  assumes "(b :: 8 word) \<le> 6"
  shows "b = 0 \<or> b = 1 \<or> b = 2 \<or> b = 3 \<or> b = 4 \<or> b = 5 \<or> b = 6"
proof -
  have "unat b \<le> 6"
    using assms by (simp add: word_le_nat_alt)
  then have "unat b = 0 \<or> unat b = 1 \<or> unat b = 2 \<or> unat b = 3
      \<or> unat b = 4 \<or> unat b = 5 \<or> unat b = 6"
    by arith
  then show ?thesis
    by (simp add: word_unat_eq_iff)
qed

lemma table_entry_range:
  assumes "table_ok w" and "i < 8"
  shows "0 \<le> sint (hallToSector w ! i) \<and> sint (hallToSector w ! i) \<le> 6"
proof -
  have "hallToSector w ! i \<le> 6"
    using assms by (simp add: table_ok_def list_all_length)
  then have "hallToSector w ! i = 0 \<or> hallToSector w ! i = 1 \<or> hallToSector w ! i = 2
      \<or> hallToSector w ! i = 3 \<or> hallToSector w ! i = 4 \<or> hallToSector w ! i = 5
      \<or> hallToSector w ! i = 6"
    by (rule byte_le_6_cases)
  then show ?thesis by auto
qed

lemma determineSector_eq:
  assumes "table_ok w"
  shows "BLDC_determineSector pinB w =
     Inr (w\<lparr>sector := (case sensor w of BLDC_SENSORLESS \<Rightarrow> sector w
                         | BLDC_HALL \<Rightarrow> hallToSector w ! readHallValue pinB)\<rparr>)"
  using assms readHallValue_less [of pinB]
  by (cases "sensor w") (simp_all add: BLDC_determineSector_def table_ok_def)

lemma determineSector_range:
  assumes "table_ok w" and "0 \<le> sint (sector w)" and "sint (sector w) \<le> 6"
  shows "\<exists>w1. BLDC_determineSector pinB w = Inr w1
     \<and> 0 \<le> sint (sector w1) \<and> sint (sector w1) \<le> 6"
  using assms table_entry_range [OF assms(1) readHallValue_less [of pinB]]
  by (cases "sensor w") (simp_all add: determineSector_eq)

text \<open>
  C4. \<open>BLDC_startMotor\<close> acts only in the stopped state. There it sets the sector to
  0, the state to starting, the start time to the clock, the duty cycle to the fixed
  minimum (whatever duty was commanded) and the direction to the commanded one, lets
  \<open>BLDC_determineSector\<close> set the initial sector, and calls \<open>BLDC_commutate\<close> once:
  the trace grows by the three calls of one commutation. In any other state it
  returns the globals as they were.
\<close>

theorem startMotor_only_from_stopped:
  "(state w \<noteq> BLDC_STOPPED \<longrightarrow> BLDC_startMotor md pinB now w = Inr w)
   \<and> (state w = BLDC_STOPPED \<and> table_ok w \<longrightarrow>
       (\<exists>w1 w'.
          BLDC_determineSector pinB
            (w\<lparr>sector := 0, state := BLDC_STARTING, startTimeAbs := now,
               dutyCycle := md, direction := cmd_direction w\<rparr>) = Inr w1
          \<and> sector w1 = (case sensor w of BLDC_SENSORLESS \<Rightarrow> 0
                          | BLDC_HALL \<Rightarrow> hallToSector w ! readHallValue pinB)
          \<and> BLDC_commutate now w1 = Inr w'
          \<and> BLDC_startMotor md pinB now w = Inr w'
          \<and> state w' = BLDC_STARTING
          \<and> startTimeAbs w' = now
          \<and> dutyCycle w' = md
          \<and> direction w' = cmd_direction w
          \<and> sector w' = nextSector (cmd_direction w) (sector w1)
          \<and> pwm w' = pwm w @ commutation_calls (sector w') md
          \<and> startCommutationTimeAbs w' = now
          \<and> cmd_dutyCycle w' = cmd_dutyCycle w
          \<and> cmd_direction w' = cmd_direction w))"
proof (intro conjI impI)
  assume "state w \<noteq> BLDC_STOPPED"
  then show "BLDC_startMotor md pinB now w = Inr w"
    by (simp add: BLDC_startMotor_def)
next
  assume a: "state w = BLDC_STOPPED \<and> table_ok w"
  let ?w0 = "w\<lparr>sector := 0, state := BLDC_STARTING, startTimeAbs := now,
               dutyCycle := md, direction := cmd_direction w\<rparr>"
  let ?w1 = "?w0\<lparr>sector := (case sensor w of BLDC_SENSORLESS \<Rightarrow> 0
                          | BLDC_HALL \<Rightarrow> hallToSector w ! readHallValue pinB)\<rparr>"
  have t0: "table_ok ?w0"
    using a by (simp add: table_ok_def)
  have d: "BLDC_determineSector pinB ?w0 = Inr ?w1"
    using determineSector_eq [OF t0, of pinB] by (cases "sensor w") simp_all
  have r: "0 \<le> sint (sector ?w1)" "sint (sector ?w1) \<le> 6"
    using table_entry_range [OF t0 readHallValue_less [of pinB]]
    by (cases "sensor w"; simp)+
  note c = commutate_in_range [OF r, of now]
  have s: "BLDC_startMotor md pinB now w = BLDC_commutate now ?w1"
    using a d by (simp add: BLDC_startMotor_def)
  show "\<exists>w1 w'.
          BLDC_determineSector pinB ?w0 = Inr w1
          \<and> sector w1 = (case sensor w of BLDC_SENSORLESS \<Rightarrow> 0
                          | BLDC_HALL \<Rightarrow> hallToSector w ! readHallValue pinB)
          \<and> BLDC_commutate now w1 = Inr w'
          \<and> BLDC_startMotor md pinB now w = Inr w'
          \<and> state w' = BLDC_STARTING
          \<and> startTimeAbs w' = now
          \<and> dutyCycle w' = md
          \<and> direction w' = cmd_direction w
          \<and> sector w' = nextSector (cmd_direction w) (sector w1)
          \<and> pwm w' = pwm w @ commutation_calls (sector w') md
          \<and> startCommutationTimeAbs w' = now
          \<and> cmd_dutyCycle w' = cmd_dutyCycle w
          \<and> cmd_direction w' = cmd_direction w"
    using s d c by simp
qed

theorem startMotor_only_from_stopped_witness:
  "BLDC_startMotor 3000 (\<lambda>n. n = 1) 40
      ((power_on BLDC_RUNNING BLDC_POS BLDC_SENSORLESS)\<lparr>cmd_dutyCycle := 5000\<rparr>)
     = Inr ((power_on BLDC_RUNNING BLDC_POS BLDC_SENSORLESS)\<lparr>cmd_dutyCycle := 5000\<rparr>)
   \<and> (\<exists>w'. BLDC_startMotor 3000 (\<lambda>n. n = 1) 40
        ((power_on BLDC_STOPPED BLDC_POS BLDC_HALL)
           \<lparr>cmd_dutyCycle := 5000, hallToSector := hallToSector_table ! 0\<rparr>) = Inr w'
      \<and> state w' = BLDC_STARTING \<and> startTimeAbs w' = 40 \<and> dutyCycle w' = 3000
      \<and> direction w' = BLDC_POS
      \<and> length (pwm w') = 3 \<and> startCommutationTimeAbs w' = 40)"
  using startMotor_only_from_stopped
      [of "(power_on BLDC_RUNNING BLDC_POS BLDC_SENSORLESS)\<lparr>cmd_dutyCycle := 5000\<rparr>"
        3000 "\<lambda>n. n = 1" 40]
    startMotor_only_from_stopped
      [of "(power_on BLDC_STOPPED BLDC_POS BLDC_HALL)
           \<lparr>cmd_dutyCycle := 5000, hallToSector := hallToSector_table ! 0\<rparr>"
        3000 "\<lambda>n. n = 1" 40]
  by (auto simp: power_on_def table_ok_def hallToSector_table_def commutation_calls_def)

section \<open>The sampling handler in the starting state\<close>

lemmas bldc_eval =
  BLDC_initMotor_def BLDC_initPositionSensors_def BLDC_stopMotor_def
  BLDC_commandDirection_def BLDC_startMotor_def BLDC_determineSector_def
  BLDC_adcInterrupt_def dormantPhaseVoltage_def readHallValue_def power_on_def
  commutate_eq nextSector_def commutation_calls_def Let_def
  hiPhaseTable_def loPhaseTable_def dormantPhaseTable_def hallToSector_table_def

text \<open>
  C3. One run of the code where the sampling handler issues two commutations in one
  call. The motor is started at clock value \<open>0xFFFFFFF0\<close>, fewer than 25 ms before
  the 32-bit millisecond clock wraps; the next sampling event comes in the same
  millisecond with the dormant phase below the neutral voltage in the odd sector 1.
  The zero-crossing branch commutates and stamps \<open>startCommutationTimeAbs\<close> with the
  clock; the stall test then adds 25 to that stamp, the sum wraps to 9, which is less
  than the clock, and a second commutation is forced: the sector goes from 1 to 3 and
  six PWM calls are made, although no time has passed since the last commutation.
\<close>

theorem adcInterrupt_two_commutations_at_clock_wrap:
  "\<exists>w0 w1 w2.
     BLDC_initMotor (\<lambda>n. False) (power_on BLDC_STOPPED BLDC_POS BLDC_SENSORLESS) = Inr w0
     \<and> BLDC_startMotor 3000 (\<lambda>n. False) 0xFFFFFFF0 w0 = Inr w1
     \<and> state w1 = BLDC_STARTING \<and> sector w1 = 1
     \<and> startCommutationTimeAbs w1 = 0xFFFFFFF0
     \<and> BLDC_adcInterrupt (\<lambda>ch. if ch = ADC_V_BUS then 100 else 0) 0xFFFFFFF0 w1 = Inr w2
     \<and> sector w2 = 3
     \<and> pwm w2 = pwm w1 @ commutation_calls 2 3000 @ commutation_calls 3 3000"
  by (simp add: bldc_eval)

text \<open>
  The same wrap the other way round: the last commutation was stamped at
  \<open>0xFFFFFFE0\<close> and the clock has since wrapped to 5, 37 ms later; the stamp plus 25
  is \<open>0xFFFFFFF9\<close>, not less than 5, and without a zero crossing nothing is forced.
\<close>

lemma adcInterrupt_no_commutation_across_clock_wrap:
  "\<exists>w0 w1 w2.
     BLDC_initMotor (\<lambda>n. False) (power_on BLDC_STOPPED BLDC_POS BLDC_SENSORLESS) = Inr w0
     \<and> BLDC_startMotor 3000 (\<lambda>n. False) 0xFFFFFFE0 w0 = Inr w1
     \<and> state w1 = BLDC_STARTING \<and> sector w1 = 1
     \<and> startCommutationTimeAbs w1 = 0xFFFFFFE0
     \<and> (5 :: u32) - startCommutationTimeAbs w1 = 37
     \<and> BLDC_adcInterrupt (\<lambda>ch. if ch = ADC_V_BUS then 100 else 200) 5 w1 = Inr w2
     \<and> sector w2 = 1 \<and> pwm w2 = pwm w1"
  by (simp add: bldc_eval)

lemma no_wrap_25:
  assumes "unat (t :: u32) + 25 < 2 ^ 32"
  shows "unat (t + 25) = unat t + 25"
  using assms by (simp add: unat_word_ariths)

text \<open>
  Away from the wrap (the clock at least 25 ms before \<open>2 ^ 32\<close>) the handler in the
  starting state issues no or one commutation per call, and one whenever the stamp
  of the last commutation plus 25 is less than the clock.
\<close>

lemma adcInterrupt_starting_no_wrap:
  assumes st: "state w = BLDC_STARTING"
    and ptr: "dormantPhasePtr w = Some ph"
    and lo: "0 \<le> sint (sector w)" and hi: "sint (sector w) \<le> 5"
    and nw: "unat now + 25 < 2 ^ 32"
  shows "\<exists>w'. BLDC_adcInterrupt adc now w = Inr w'
     \<and> (pwm w' = pwm w \<or> pwm w' = pwm w @ commutation_calls (sector w') (dutyCycle w))
     \<and> (unat (startCommutationTimeAbs w) + 25 < unat now \<longrightarrow>
          pwm w' = pwm w @ commutation_calls (sector w') (dutyCycle w))"
proof -
  let ?w1 = "w\<lparr>phaseA := adc ADC_PH_A, phaseB := adc ADC_PH_B, phaseC := adc ADC_PH_C\<rparr>"
  let ?n = "drop_bit 1 (adc ADC_V_BUS) :: u16"
  obtain v where v: "dormantPhaseVoltage ?w1 = Inr v"
    using ptr by (cases ph) (simp_all add: dormantPhaseVoltage_def)
  have r: "0 \<le> sint (sector ?w1)" "sint (sector ?w1) \<le> 6"
    using lo hi by simp_all
  note c = commutate_in_range [OF r, of now]
  let ?w2 = "?w1\<lparr>sector := nextSector (direction w) (sector w),
      pwm := pwm w @ commutation_calls (nextSector (direction w) (sector w)) (dutyCycle w),
      dormantPhasePtr := Some (dormantPhaseTable ! nat (sint (nextSector (direction w) (sector w)))),
      startCommutationTimeAbs := now\<rparr>"
  have c1: "BLDC_commutate now ?w1 = Inr ?w2"
    using c st by simp
  have after: "\<not> startCommutationTimeAbs ?w2 + 25 < now"
    using no_wrap_25 [OF nw] by (simp add: word_less_nat_alt)
  have forced: "unat (startCommutationTimeAbs w) + 25 < unat now \<Longrightarrow>
      startCommutationTimeAbs ?w1 + 25 < now"
  proof -
    assume a: "unat (startCommutationTimeAbs w) + 25 < unat now"
    have "unat now < 2 ^ 32"
      using unsigned_less [of now, where 'a = nat] by simp
    with a have "unat (startCommutationTimeAbs w) + 25 < 2 ^ 32"
      by simp
    from no_wrap_25 [OF this] a show ?thesis
      by (simp add: word_less_nat_alt)
  qed
  define zc where "zc = (if sector w AND 1 = 1 then v < ?n else ?n < v)"
  have run: "BLDC_adcInterrupt adc now w =
      (if zc then Inr ?w2
       else if startCommutationTimeAbs ?w1 + 25 < now then Inr ?w2 else Inr ?w1)"
    using st v c1 after by (simp add: BLDC_adcInterrupt_def zc_def)
  show ?thesis
    using forced unfolding run by auto
qed

section \<open>The Hall table and the sector range\<close>

lemma row_cases:
  assumes "r < (12 :: nat)"
  shows "r = 0 \<or> r = 1 \<or> r = 2 \<or> r = 3 \<or> r = 4 \<or> r = 5 \<or> r = 6 \<or> r = 7
    \<or> r = 8 \<or> r = 9 \<or> r = 10 \<or> r = 11"
  using assms by arith

lemma table_row_shape:
  assumes "r < 12"
  shows "length (hallToSector_table ! r) = 8
    \<and> list_all (\<lambda>b. b \<le> 6) (hallToSector_table ! r)
    \<and> list_all (\<lambda>b. b \<le> 5) (take 6 (drop 1 (hallToSector_table ! r)))"
  using row_cases [OF assms] by (elim disjE) (simp_all add: hallToSector_table_def)

lemma table_row_valid_code:
  assumes "r < 12" and "0 < i" and "i < 7"
  shows "hallToSector_table ! r ! i \<le> 5"
proof -
  have all: "list_all (\<lambda>b. b \<le> 5) (take 6 (drop 1 (hallToSector_table ! r)))"
    and len: "length (hallToSector_table ! r) = 8"
    using table_row_shape [OF assms(1)] by auto
  obtain n where n: "i = Suc n" "n < 6"
    using assms(2,3) by (cases i) auto
  from all len have "\<forall>n<6. hallToSector_table ! r ! Suc n \<le> 5"
    by (simp add: list_all_length)
  with n show ?thesis
    by simp
qed

lemma byte_le_5_sint:
  assumes "(b :: 8 word) \<le> 5"
  shows "0 \<le> sint b \<and> sint b \<le> 5"
proof -
  have "b \<le> 6"
    using assms by (simp add: word_le_nat_alt)
  from byte_le_6_cases [OF this] assms show ?thesis
    by auto
qed

lemma commutate_inv:
  assumes "bldc_inv w"
  shows "\<exists>w'. BLDC_commutate now w = Inr w' \<and> bldc_inv w' \<and> state w' = state w"
proof -
  have r: "0 \<le> sint (sector w)" "sint (sector w) \<le> 6"
    using assms by (simp_all add: bldc_inv_def sector_ok_def)
  show ?thesis
    using commutate_in_range [OF r, of now] nextSector_range [OF r, of "direction w"] assms
    by (simp add: bldc_inv_def sector_ok_def table_ok_def)
qed

lemma startMotor_inv:
  assumes "bldc_inv w"
  shows "\<exists>w'. BLDC_startMotor md pinB now w = Inr w' \<and> bldc_inv w'
     \<and> (state w' = state w \<or> state w' = BLDC_STARTING)"
proof (cases "state w = BLDC_STOPPED")
  case False
  then show ?thesis
    using assms by (simp add: BLDC_startMotor_def)
next
  case True
  let ?w0 = "w\<lparr>sector := 0, state := BLDC_STARTING, startTimeAbs := now,
               dutyCycle := md, direction := cmd_direction w\<rparr>"
  have t0: "table_ok ?w0"
    using assms by (simp add: bldc_inv_def table_ok_def)
  have "0 \<le> sint (sector ?w0)" and "sint (sector ?w0) \<le> 6"
    by simp_all
  from determineSector_range [OF t0 this, of pinB] obtain w1 where
    d: "BLDC_determineSector pinB ?w0 = Inr w1"
    and r: "0 \<le> sint (sector w1)" "sint (sector w1) \<le> 6"
    by blast
  have t1: "table_ok w1" and s1: "state w1 = BLDC_STARTING"
    using d t0 by (cases "sensor w"; auto simp: determineSector_eq table_ok_def)+
  note c = commutate_in_range [OF r, of now]
  have "BLDC_startMotor md pinB now w = BLDC_commutate now w1"
    using True d by (simp add: BLDC_startMotor_def)
  then show ?thesis
    using c nextSector_range [OF r, of "direction w1"] t1 s1
    by (simp add: bldc_inv_def sector_ok_def table_ok_def)
qed

lemma adcInterrupt_inv:
  assumes "bldc_inv w"
  shows "\<exists>w'. BLDC_adcInterrupt adc now w = Inr w' \<and> bldc_inv w'
     \<and> (state w' = state w \<or> state w' = BLDC_STOPPED)"
proof (cases "state w")
  case BLDC_STARTING
  let ?w1 = "w\<lparr>phaseA := adc ADC_PH_A, phaseB := adc ADC_PH_B, phaseC := adc ADC_PH_C\<rparr>"
  let ?n = "drop_bit 1 (adc ADC_V_BUS) :: u16"
  have i1: "bldc_inv ?w1" and s1: "state ?w1 = BLDC_STARTING"
    using assms BLDC_STARTING by (simp_all add: bldc_inv_def sector_ok_def table_ok_def)
  obtain ph where "dormantPhasePtr ?w1 = Some ph"
    using i1 s1 by (auto simp: bldc_inv_def)
  then obtain v where v: "dormantPhaseVoltage ?w1 = Inr v"
    by (cases ph) (simp_all add: dormantPhaseVoltage_def)
  define zc where "zc = (if sector ?w1 AND 1 = 1 then v < ?n else ?n < v)"
  obtain w2 where w2: "(if zc then BLDC_commutate now ?w1 else Inr ?w1) = Inr w2"
    and i2: "bldc_inv w2" and s2: "state w2 = BLDC_STARTING"
    using commutate_inv [OF i1, of now] i1 s1 by (cases zc) auto
  obtain w3 where w3: "(if startCommutationTimeAbs w2 + 25 < now
      then BLDC_commutate now w2 else Inr w2) = Inr w3" and i3: "bldc_inv w3"
    and s3: "state w3 = BLDC_STARTING"
    using commutate_inv [OF i2, of now] i2 s2
    by (cases "startCommutationTimeAbs w2 + 25 < now") auto
  have "BLDC_adcInterrupt adc now w = Inr w3"
    using BLDC_STARTING v w2 w3 unfolding zc_def
    by (simp add: BLDC_adcInterrupt_def split: if_splits)
  with i3 s3 BLDC_STARTING show ?thesis by simp
qed (use assms in \<open>auto simp: BLDC_adcInterrupt_def bldc_inv_def sector_ok_def table_ok_def Let_def\<close>)

lemma do_call_inv:
  assumes "bldc_inv w"
  shows "\<exists>w'. do_call md c w = Inr w' \<and> bldc_inv w'
     \<and> (state w' = state w \<or> state w' = BLDC_STARTING \<or> state w' = BLDC_STOPPED)"
proof (cases c)
  case (StartMotor pinB now)
  then show ?thesis using startMotor_inv [OF assms, of md pinB now] by auto
next
  case StopMotor
  then show ?thesis
    using assms by (simp add: BLDC_stopMotor_def bldc_inv_def sector_ok_def table_ok_def)
next
  case (CommandDutyCycle d)
  then show ?thesis
    using assms by (simp add: BLDC_commandDutyCycle_def bldc_inv_def sector_ok_def table_ok_def)
next
  case (CommandDirection d)
  then show ?thesis
    using assms by (simp add: BLDC_commandDirection_def bldc_inv_def sector_ok_def table_ok_def)
next
  case (AdcInterrupt adc now)
  then show ?thesis using adcInterrupt_inv [OF assms, of adc now] by auto
qed

lemma run_calls_inv:
  assumes "bldc_inv w" and "state w \<noteq> BLDC_LOCKED"
  shows "\<exists>w'. run_calls md cs w = Inr w' \<and> bldc_inv w' \<and> state w' \<noteq> BLDC_LOCKED"
  using assms
proof (induction cs arbitrary: w)
  case Nil
  then show ?case by simp
next
  case (Cons c cs)
  from do_call_inv [OF Cons.prems(1), of md c] obtain w1 where
    "do_call md c w = Inr w1" and "bldc_inv w1"
    and "state w1 = state w \<or> state w1 = BLDC_STARTING \<or> state w1 = BLDC_STOPPED"
    by blast
  with Cons.IH [of w1] Cons.prems(2) show ?case by auto
qed

lemma initMotor_inv:
  "\<exists>w0. BLDC_initMotor pinB (power_on st d k) = Inr w0 \<and> bldc_inv w0
     \<and> state w0 = BLDC_STOPPED"
  by (simp add: BLDC_initMotor_def BLDC_initPositionSensors_def BLDC_stopMotor_def
      BLDC_commandDirection_def power_on_def bldc_inv_def sector_ok_def table_ok_def
      hallToSector_table_def Let_def list_all_iff)

lemma determineSector_state:
  assumes "BLDC_determineSector pinB w = Inr w'"
  shows "w' = w\<lparr>sector := sector w'\<rparr>"
  using assms
  by (cases "sensor w") (auto simp: BLDC_determineSector_def Let_def split: if_splits)

lemma determineSector_valid_code:
  assumes "sensor w = BLDC_HALL" and "r < 12" and "hallToSector w = hallToSector_table ! r"
    and "readHallValue pinB \<noteq> 0" and "readHallValue pinB \<noteq> 7"
  shows "BLDC_determineSector pinB w =
      Inr (w\<lparr>sector := hallToSector_table ! r ! readHallValue pinB\<rparr>)
    \<and> 0 \<le> sint (hallToSector_table ! r ! readHallValue pinB)
    \<and> sint (hallToSector_table ! r ! readHallValue pinB) \<le> 5"
proof -
  have len: "length (hallToSector w) = 8"
    using assms(2,3) table_row_shape [of r] by simp
  have "0 < readHallValue pinB" and "readHallValue pinB < 7"
    using assms(4,5) readHallValue_less [of pinB] by auto
  from table_row_valid_code [OF assms(2) this]
  have "hallToSector_table ! r ! readHallValue pinB \<le> 5" .
  from byte_le_5_sint [OF this] show ?thesis
    using assms(1,3) len readHallValue_less [of pinB]
    by (simp add: BLDC_determineSector_def)
qed

text \<open>
  C1, as the code has it. Each function that writes the sector, run from its first
  statement to its last on globals where the sector is in 0..5, the Hall array is well
  formed and the dormant pointer is set in the starting state, returns with the sector
  in 0..5 again: \<open>BLDC_commutate\<close> (its advance wraps 5 to 0 under the positive
  direction and 0 to 5 under the negative one), \<open>BLDC_startMotor\<close> as a whole (reset,
  \<open>BLDC_determineSector\<close>, one commutation) and the sampling handler.
  \<open>BLDC_determineSector\<close> on its own keeps the sector in 0..5 when the sensor is
  sensorless, and when the sensor is Hall, one of the twelve rows is loaded and the
  Hall code is one of 1..6. Nothing is said of the globals in the middle of
  \<open>BLDC_startMotor\<close>, where the sampling interrupt can find them.
\<close>

theorem sector_range_preserved:
  "(bldc_inv w \<longrightarrow>
        (\<exists>w'. BLDC_commutate now w = Inr w' \<and> bldc_inv w'
           \<and> 0 \<le> sint (sector w') \<and> sint (sector w') \<le> 5))
   \<and> nextSector BLDC_POS 5 = 0 \<and> nextSector BLDC_NEG 0 = 5
   \<and> (bldc_inv w \<longrightarrow>
        (\<exists>w'. BLDC_startMotor md pinB now w = Inr w' \<and> bldc_inv w'
           \<and> 0 \<le> sint (sector w') \<and> sint (sector w') \<le> 5))
   \<and> (bldc_inv w \<longrightarrow>
        (\<exists>w'. BLDC_adcInterrupt adc now w = Inr w' \<and> bldc_inv w'
           \<and> 0 \<le> sint (sector w') \<and> sint (sector w') \<le> 5))
   \<and> (bldc_inv w \<and> sensor w = BLDC_SENSORLESS \<longrightarrow> BLDC_determineSector pinB w = Inr w)
   \<and> (bldc_inv w \<and> sensor w = BLDC_HALL \<and> r < 12 \<and> hallToSector w = hallToSector_table ! r
        \<and> readHallValue pinB \<noteq> 0 \<and> readHallValue pinB \<noteq> 7 \<longrightarrow>
        (\<exists>w'. BLDC_determineSector pinB w = Inr w' \<and> bldc_inv w'
           \<and> 0 \<le> sint (sector w') \<and> sint (sector w') \<le> 5))"
proof (intro conjI impI)
  assume "bldc_inv w"
  from commutate_inv [OF this, of now]
  show "\<exists>w'. BLDC_commutate now w = Inr w' \<and> bldc_inv w'
           \<and> 0 \<le> sint (sector w') \<and> sint (sector w') \<le> 5"
    by (auto simp: bldc_inv_def sector_ok_def)
next
  show "nextSector BLDC_POS 5 = 0"
    by (simp add: nextSector_def)
next
  show "nextSector BLDC_NEG 0 = 5"
    by (simp add: nextSector_def)
next
  assume "bldc_inv w"
  from startMotor_inv [OF this, of md pinB now]
  show "\<exists>w'. BLDC_startMotor md pinB now w = Inr w' \<and> bldc_inv w'
           \<and> 0 \<le> sint (sector w') \<and> sint (sector w') \<le> 5"
    by (auto simp: bldc_inv_def sector_ok_def)
next
  assume "bldc_inv w"
  from adcInterrupt_inv [OF this, of adc now]
  show "\<exists>w'. BLDC_adcInterrupt adc now w = Inr w' \<and> bldc_inv w'
           \<and> 0 \<le> sint (sector w') \<and> sint (sector w') \<le> 5"
    by (auto simp: bldc_inv_def sector_ok_def)
next
  assume "bldc_inv w \<and> sensor w = BLDC_SENSORLESS"
  then show "BLDC_determineSector pinB w = Inr w"
    by (simp add: BLDC_determineSector_def)
next
  assume a: "bldc_inv w \<and> sensor w = BLDC_HALL \<and> r < 12
      \<and> hallToSector w = hallToSector_table ! r
      \<and> readHallValue pinB \<noteq> 0 \<and> readHallValue pinB \<noteq> 7"
  then have "BLDC_determineSector pinB w =
      Inr (w\<lparr>sector := hallToSector_table ! r ! readHallValue pinB\<rparr>)
    \<and> 0 \<le> sint (hallToSector_table ! r ! readHallValue pinB)
    \<and> sint (hallToSector_table ! r ! readHallValue pinB) \<le> 5"
    by (intro determineSector_valid_code) auto
  with a table_row_shape [of r]
  show "\<exists>w'. BLDC_determineSector pinB w = Inr w' \<and> bldc_inv w'
           \<and> 0 \<le> sint (sector w') \<and> sint (sector w') \<le> 5"
    by (simp add: bldc_inv_def sector_ok_def table_ok_def)
qed

theorem sector_range_preserved_witness:
  "(\<exists>w'. BLDC_commutate 7
         ((power_on BLDC_STOPPED BLDC_POS BLDC_SENSORLESS)\<lparr>sector := 5\<rparr>) = Inr w'
       \<and> 0 \<le> sint (sector w') \<and> sint (sector w') \<le> 5)
   \<and> (\<exists>w'. BLDC_startMotor 3000 (\<lambda>n. n = 1) 7
         ((power_on BLDC_STOPPED BLDC_POS BLDC_SENSORLESS)\<lparr>sector := 5\<rparr>) = Inr w'
       \<and> 0 \<le> sint (sector w') \<and> sint (sector w') \<le> 5)
   \<and> (\<exists>w'. BLDC_adcInterrupt (\<lambda>ch. 0) 7
         ((power_on BLDC_STOPPED BLDC_POS BLDC_SENSORLESS)\<lparr>sector := 5\<rparr>) = Inr w'
       \<and> 0 \<le> sint (sector w') \<and> sint (sector w') \<le> 5)
   \<and> BLDC_determineSector (\<lambda>n. n = 1)
         ((power_on BLDC_STOPPED BLDC_POS BLDC_SENSORLESS)\<lparr>sector := 5\<rparr>)
       = Inr ((power_on BLDC_STOPPED BLDC_POS BLDC_SENSORLESS)\<lparr>sector := 5\<rparr>)
   \<and> (\<exists>w'. BLDC_determineSector (\<lambda>n. n = 1)
         ((power_on BLDC_STOPPED BLDC_POS BLDC_HALL)\<lparr>hallToSector := hallToSector_table ! 0\<rparr>)
         = Inr w'
       \<and> 0 \<le> sint (sector w') \<and> sint (sector w') \<le> 5)"
proof -
  have i1: "bldc_inv ((power_on BLDC_STOPPED BLDC_POS BLDC_SENSORLESS)\<lparr>sector := 5\<rparr>)"
    by (simp add: bldc_inv_def sector_ok_def table_ok_def power_on_def list_all_iff)
  have i2: "bldc_inv ((power_on BLDC_STOPPED BLDC_POS BLDC_HALL)
      \<lparr>hallToSector := hallToSector_table ! 0\<rparr>)"
    by (simp add: bldc_inv_def sector_ok_def table_ok_def power_on_def hallToSector_table_def)
  have s1: "sensor ((power_on BLDC_STOPPED BLDC_POS BLDC_SENSORLESS)\<lparr>sector := 5\<rparr>)
      = BLDC_SENSORLESS"
    and s2: "sensor ((power_on BLDC_STOPPED BLDC_POS BLDC_HALL)
      \<lparr>hallToSector := hallToSector_table ! 0\<rparr>) = BLDC_HALL"
    and t2: "hallToSector ((power_on BLDC_STOPPED BLDC_POS BLDC_HALL)
      \<lparr>hallToSector := hallToSector_table ! 0\<rparr>) = hallToSector_table ! 0"
    by (simp_all add: power_on_def)
  have h: "readHallValue (\<lambda>n. n = 1) \<noteq> 0" "readHallValue (\<lambda>n. n = 1) \<noteq> 7"
    by (simp_all add: readHallValue_def)
  show ?thesis
    using sector_range_preserved
      [of "(power_on BLDC_STOPPED BLDC_POS BLDC_SENSORLESS)\<lparr>sector := 5\<rparr>"
        7 3000 "\<lambda>n. n = 1" "\<lambda>ch. 0" 0]
      sector_range_preserved
      [of "(power_on BLDC_STOPPED BLDC_POS BLDC_HALL)\<lparr>hallToSector := hallToSector_table ! 0\<rparr>"
        7 3000 "\<lambda>n. n = 1" "\<lambda>ch. 0" 0]
      i1 i2 s1 s2 t2 h
    by auto
qed

text \<open>
  \<open>BLDC_determineSector\<close> does not keep the sector in 0..5 for every input: with the
  Hall sensor selected at initialisation and row 0 loaded, the Hall code 0 (all three
  lines low) stores the table's sentinel 6.
\<close>

theorem determineSector_stores_sentinel_counterexample:
  "\<exists>w0 w'.
     BLDC_initMotor (\<lambda>n. n = 0) (power_on BLDC_STOPPED BLDC_POS BLDC_SENSORLESS) = Inr w0
     \<and> sensor w0 = BLDC_HALL \<and> sint (sector w0) = 0
     \<and> BLDC_determineSector (\<lambda>n. False) w0 = Inr w'
     \<and> sint (sector w') = 6 \<and> \<not> sint (sector w') \<le> 5"
  by (simp add: bldc_eval)

text \<open>
  C2, as the code has it. The file has no fault path: \<open>BLDC_determineSector\<close> changes
  nothing but the sector, so it never changes the motor state, and after
  \<open>BLDC_initMotor\<close> no sequence of calls ever leaves the motor in the locked state.
  With the Hall sensor and any of the twelve rows loaded, a Hall code in 1..6 is
  mapped through the row to a sector in 0..5.
\<close>

theorem determineSector_hall_lookup:
  "(BLDC_determineSector pinB w = Inr w' \<longrightarrow>
      w' = w\<lparr>sector := sector w'\<rparr> \<and> state w' = state w)
   \<and> (sensor w = BLDC_HALL \<and> r < 12 \<and> hallToSector w = hallToSector_table ! r
        \<and> readHallValue pinB \<noteq> 0 \<and> readHallValue pinB \<noteq> 7 \<longrightarrow>
        BLDC_determineSector pinB w =
          Inr (w\<lparr>sector := hallToSector_table ! r ! readHallValue pinB\<rparr>)
        \<and> 0 \<le> sint (hallToSector_table ! r ! readHallValue pinB)
        \<and> sint (hallToSector_table ! r ! readHallValue pinB) \<le> 5)
   \<and> (\<exists>w0 w1. BLDC_initMotor pinB0 (power_on st d k) = Inr w0
        \<and> run_calls md cs w0 = Inr w1 \<and> state w1 \<noteq> BLDC_LOCKED)"
proof (intro conjI impI)
  assume a: "BLDC_determineSector pinB w = Inr w'"
  from determineSector_state [OF a] show "w' = w\<lparr>sector := sector w'\<rparr>" .
  then have "state w' = state (w\<lparr>sector := sector w'\<rparr>)"
    by simp
  then show "state w' = state w"
    by simp
next
  assume a: "sensor w = BLDC_HALL \<and> r < 12 \<and> hallToSector w = hallToSector_table ! r
        \<and> readHallValue pinB \<noteq> 0 \<and> readHallValue pinB \<noteq> 7"
  then have v: "BLDC_determineSector pinB w =
      Inr (w\<lparr>sector := hallToSector_table ! r ! readHallValue pinB\<rparr>)
    \<and> 0 \<le> sint (hallToSector_table ! r ! readHallValue pinB)
    \<and> sint (hallToSector_table ! r ! readHallValue pinB) \<le> 5"
    by (intro determineSector_valid_code) auto
  from v show "BLDC_determineSector pinB w =
      Inr (w\<lparr>sector := hallToSector_table ! r ! readHallValue pinB\<rparr>)"
    by simp
  from v show "0 \<le> sint (hallToSector_table ! r ! readHallValue pinB)"
    by simp
  from v show "sint (hallToSector_table ! r ! readHallValue pinB) \<le> 5"
    by simp
next
  from initMotor_inv [of pinB0 st d k] obtain w0 where
    w0: "BLDC_initMotor pinB0 (power_on st d k) = Inr w0" "bldc_inv w0"
      "state w0 = BLDC_STOPPED"
    by blast
  from run_calls_inv [OF w0(2), of md cs] w0(3) obtain w1 where
    "run_calls md cs w0 = Inr w1" "state w1 \<noteq> BLDC_LOCKED"
    by auto
  with w0(1) show "\<exists>w0 w1. BLDC_initMotor pinB0 (power_on st d k) = Inr w0
        \<and> run_calls md cs w0 = Inr w1 \<and> state w1 \<noteq> BLDC_LOCKED"
    by blast
qed

theorem determineSector_hall_lookup_witness:
  "BLDC_determineSector (\<lambda>n. n = 1)
      ((power_on BLDC_STOPPED BLDC_POS BLDC_HALL)\<lparr>hallToSector := hallToSector_table ! 0\<rparr>)
    = Inr ((power_on BLDC_STOPPED BLDC_POS BLDC_HALL)
        \<lparr>hallToSector := hallToSector_table ! 0, sector := 3\<rparr>)
   \<and> state ((power_on BLDC_STOPPED BLDC_POS BLDC_HALL)
        \<lparr>hallToSector := hallToSector_table ! 0, sector := 3\<rparr>) = BLDC_STOPPED
   \<and> (\<exists>w0 w1. BLDC_initMotor (\<lambda>n. n = 1) (power_on BLDC_LOCKED BLDC_POS BLDC_SENSORLESS) = Inr w0
        \<and> run_calls 3000 [StartMotor (\<lambda>n. True) 7, AdcInterrupt (\<lambda>ch. 0) 40] w0 = Inr w1
        \<and> state w1 \<noteq> BLDC_LOCKED)"
proof -
  let ?w = "(power_on BLDC_STOPPED BLDC_POS BLDC_HALL)\<lparr>hallToSector := hallToSector_table ! 0\<rparr>"
  let ?w' = "(power_on BLDC_STOPPED BLDC_POS BLDC_HALL)
        \<lparr>hallToSector := hallToSector_table ! 0, sector := 3\<rparr>"
  note t = determineSector_hall_lookup
      [of "\<lambda>n. n = 1" ?w ?w' 0 "\<lambda>n. n = 1" BLDC_LOCKED BLDC_POS BLDC_SENSORLESS 3000
        "[StartMotor (\<lambda>n. True) 7, AdcInterrupt (\<lambda>ch. 0) 40]"]
  have pre: "sensor ?w = BLDC_HALL \<and> (0::nat) < 12 \<and> hallToSector ?w = hallToSector_table ! 0
        \<and> readHallValue (\<lambda>n. n = 1) \<noteq> 0 \<and> readHallValue (\<lambda>n. n = 1) \<noteq> 7"
    by (simp add: power_on_def readHallValue_def)
  have val: "hallToSector_table ! 0 ! readHallValue (\<lambda>n. n = 1) = 3"
    by (simp add: hallToSector_table_def readHallValue_def)
  from t pre have "BLDC_determineSector (\<lambda>n. n = 1) ?w =
      Inr (?w\<lparr>sector := hallToSector_table ! 0 ! readHallValue (\<lambda>n. n = 1)\<rparr>)"
    by blast
  then have d: "BLDC_determineSector (\<lambda>n. n = 1) ?w = Inr ?w'"
    by (simp only: val)
  from t d have "state ?w' = state ?w"
    by blast
  then have s: "state ?w' = BLDC_STOPPED"
    by (simp add: power_on_def)
  from t d s show ?thesis
    by blast
qed

text \<open>
  With the Hall sensor, Hall code 7 (all three lines high) is mapped through the row
  like any other: \<open>BLDC_determineSector\<close> stores the sentinel 6 and leaves the state
  as it was, and \<open>BLDC_startMotor\<close> goes on to the starting state.
\<close>

theorem determineSector_hall_code_7_counterexample:
  "\<exists>w0 w' w''.
     BLDC_initMotor (\<lambda>n. n = 0) (power_on BLDC_STOPPED BLDC_POS BLDC_SENSORLESS) = Inr w0
     \<and> sensor w0 = BLDC_HALL \<and> readHallValue (\<lambda>n. True) = 7
     \<and> BLDC_determineSector (\<lambda>n. True) w0 = Inr w'
     \<and> sector w' = 6 \<and> state w' = BLDC_STOPPED \<and> state w' \<noteq> BLDC_LOCKED
     \<and> BLDC_startMotor 3000 (\<lambda>n. True) 7 w0 = Inr w''
     \<and> state w'' = BLDC_STARTING \<and> sector w'' = 0"
  by (simp add: bldc_eval)

end
